theory Spec2Isabelle
  imports Complex_Main "HOL-Library.Multiset" "HOL-Library.AList" "HOL-Library.Sublist"
begin

section \<open>Values of the tables\<close>

text \<open>
  The notebook \<^verbatim>\<open>dask_creating_spatial_data.ipynb\<close> reads three tab-delimited GeoNames
  files into dask dataframes, concatenates them, keeps the rows of feature class \<^verbatim>\<open>T\<close>,
  adds a point geometry built from the longitude and latitude columns and writes the
  result as the layer \<^verbatim>\<open>mountains\<close> of a GeoPackage.

  A 64-bit float is a finite number, an infinity or NaN. The notebook does no arithmetic
  on floats: they are parsed, copied into points and written, so only the distinction
  between these cases matters. NaN is also the marker of a missing value, in float and
  in object columns.
\<close>

datatype float64 = Finite real | PosInf | NegInf | NaN

text \<open>The comparison \<^verbatim>\<open>==\<close> of two floats: NaN is equal to nothing, not even to itself.\<close>

fun float_eq :: "float64 \<Rightarrow> float64 \<Rightarrow> bool" where
  "float_eq NaN b = False"
| "float_eq a NaN = False"
| "float_eq a b = (a = b)"

fun is_number :: "float64 \<Rightarrow> bool" where
  "is_number NaN = False"
| "is_number a = True"

text \<open>A shapely point \<^verbatim>\<open>Point(x, y)\<close> and its two coordinate attributes.\<close>

datatype point = Point float64 float64

fun point_x :: "point \<Rightarrow> float64" where
  "point_x (Point a b) = a"

fun point_y :: "point \<Rightarrow> float64" where
  "point_y (Point a b) = b"

text \<open>
  One cell of a dataframe: an integer, a float, a string of an object column, or a
  geometry. The column types \<^verbatim>\<open>int\<close>, \<^verbatim>\<open>float\<close> and \<^verbatim>\<open>object\<close> are the three values of
  the dictionary \<^verbatim>\<open>dtypes\<close>.
\<close>

datatype cell = IntV int | FloatV float64 | StrV string | GeomV point

datatype dtype = int_t | float_t | object_t

text \<open>The Python exceptions that the library calls of the notebook raise.\<close>

datatype error = ParserError | ValueError | KeyError | FileNotFoundError

text \<open>
  A row of a dataframe maps column names to cells, in column order; a pandas DataFrame is
  the list of its rows and a Series the list of its cells. A dask dataframe is the list of
  its partitions, each a pandas DataFrame; \<^verbatim>\<open>compute()\<close> concatenates the partitions in
  their order.
\<close>

type_synonym row = "(string \<times> cell) list"
type_synonym frame = "row list"
type_synonym series = "cell list"
type_synonym dask_frame = "frame list"
type_synonym dask_series = "series list"

definition compute :: "'a list list \<Rightarrow> 'a list" where
  "compute parts = concat parts"

text \<open>Running a fallible step over a list stops at the first exception.\<close>

fun traverse :: "('a \<Rightarrow> error + 'b) \<Rightarrow> 'a list \<Rightarrow> error + 'b list" where
  "traverse f [] = Inr []"
| "traverse f (x # xs) =
     (case f x of
        Inl e \<Rightarrow> Inl e
      | Inr y \<Rightarrow> (case traverse f xs of Inl e \<Rightarrow> Inl e | Inr ys \<Rightarrow> Inr (y # ys)))"

section \<open>Record Loader\<close>

text \<open>The cell \<^verbatim>\<open>column_names = [...]\<close> and the cell \<^verbatim>\<open>dtypes = {...}\<close> of the notebook.\<close>

definition column_names :: "string list" where
  "column_names =
     [''geonameid'', ''name'', ''asciiname'', ''alternatenames'',
      ''latitude'', ''longitude'', ''feature class'', ''feature code'',
      ''country code'', ''cc2'', ''admin1 code'', ''admin2 code'',
      ''admin3 code'', ''admin4 code'', ''population'', ''elevation'',
      ''dem'', ''timezone'', ''modification date'']"

definition dtypes :: "(string \<times> dtype) list" where
  "dtypes =
     [(''geonameid'', int_t), (''name'', object_t), (''asciiname'', object_t),
      (''alternatenames'', object_t),
      (''latitude'', float_t), (''longitude'', float_t), (''feature class'', object_t),
      (''feature code'', object_t),
      (''country code'', object_t), (''cc2'', object_t), (''admin1 code'', object_t),
      (''admin2 code'', object_t),
      (''admin3 code'', object_t), (''admin4 code'', object_t), (''population'', int_t),
      (''elevation'', float_t),
      (''dem'', int_t), (''timezone'', object_t), (''modification date'', object_t)]"

text \<open>
  The file is read as text. A line of it is given here by its fields, the pieces of
  text between the separators \<^verbatim>\<open>sep = '\t'\<close>, and dask cuts a file at line ends into
  blocks, one partition each: a block is a list of lines, a file a list of blocks.

  \<^verbatim>\<open>read_csv\<close> skips a line that holds nothing, or nothing but spaces.
\<close>

fun blank_line :: "string list \<Rightarrow> bool" where
  "blank_line [] = True"
| "blank_line [s] = list_all (\<lambda>c. c = CHR '' '') s"
| "blank_line (s # t # fs) = False"

text \<open>
  The fields of a line are the pieces between the separators only where \<^verbatim>\<open>read_csv\<close>
  sees nothing else to act on. A field that begins with the double quote is read up to
  the closing quote, across separators and line ends; a carriage return ends a line; a
  byte order mark at the beginning is dropped; a zero byte ends a field; and text that
  is not UTF-8 is refused when it is decoded. A plain field has none of these (nor a
  separator or a line end inside, which a piece between them cannot have).
\<close>

definition byte :: "char \<Rightarrow> nat" where
  "byte c = of_char c"

definition continuation :: "char \<Rightarrow> bool" where
  "continuation c \<longleftrightarrow> 0x80 \<le> byte c \<and> byte c \<le> 0xBF"

fun utf8 :: "string \<Rightarrow> bool" where
  "utf8 [] = True"
| "utf8 (a # s) =
     (if byte a < 0x80 then utf8 s
      else if 0xC2 \<le> byte a \<and> byte a \<le> 0xDF then
        (case s of
           b # t \<Rightarrow> continuation b \<and> utf8 t
         | _ \<Rightarrow> False)
      else if 0xE0 \<le> byte a \<and> byte a \<le> 0xEF then
        (case s of
           b # c # t \<Rightarrow>
             continuation b \<and> continuation c \<and>
             (if byte a = 0xE0 then 0xA0 \<le> byte b else True) \<and>
             (if byte a = 0xED then byte b \<le> 0x9F else True) \<and> utf8 t
         | _ \<Rightarrow> False)
      else if 0xF0 \<le> byte a \<and> byte a \<le> 0xF4 then
        (case s of
           b # c # d # t \<Rightarrow>
             continuation b \<and> continuation c \<and> continuation d \<and>
             (if byte a = 0xF0 then 0x90 \<le> byte b else True) \<and>
             (if byte a = 0xF4 then byte b \<le> 0x8F else True) \<and> utf8 t
         | _ \<Rightarrow> False)
      else False)"

definition plain_field :: "string \<Rightarrow> bool" where
  "plain_field s \<longleftrightarrow>
     (case s of [] \<Rightarrow> True | c # cs \<Rightarrow> c \<noteq> CHR 0x22) \<and>
     take 3 s \<noteq> [CHR 0xEF, CHR 0xBB, CHR 0xBF] \<and>
     list_all (\<lambda>c. c \<noteq> CHR 0x0D \<and> c \<noteq> CHR 0x0A \<and> c \<noteq> CHR 0x09 \<and> c \<noteq> CHR 0x00) s \<and>
     utf8 s"

text \<open>
  \<^verbatim>\<open>read_csv\<close> fixes the width of the table on the first line it reads: the number of
  names, or the number of fields of that line if it has more, and then it takes the
  leading fields of every line as the index of the frame. A block is regular when all its
  fields are plain and its first line that is not skipped has no more fields than there
  are names; the table is then as wide as the list of names.
\<close>

definition regular_block :: "string list list \<Rightarrow> bool" where
  "regular_block lines \<longleftrightarrow>
     list_all (list_all plain_field) lines \<and>
     (case filter (\<lambda>fs. \<not> blank_line fs) lines of
        [] \<Rightarrow> True
      | first # rest \<Rightarrow> length first \<le> length column_names)"

text \<open>
  The text-to-value conversions of the libraries are parameters of the model:
  \<^item> \<open>is_na\<close>: the strings that \<^verbatim>\<open>read_csv\<close> takes as a missing value (the empty field
    among them);
  \<^item> \<open>to_int64\<close>, \<open>to_float64\<close>: the parsers of an integer and of a float field, \<open>None\<close>
    when the field does not parse;
  \<^item> \<open>np_float64\<close>: numpy's conversion of a cell that is not a float to \<^verbatim>\<open>float64\<close>
    (\<^verbatim>\<open>np.asarray(x, dtype="float64")\<close> in \<^verbatim>\<open>points_from_xy\<close>), \<open>None\<close> when it raises;
  \<^item> \<open>read_irregular\<close>: the columns of what \<^verbatim>\<open>read_csv\<close>, called with the given
    \<^verbatim>\<open>nrows\<close>, makes of a block that is not regular.
\<close>

record coercion =
  is_na :: "string \<Rightarrow> bool"
  to_int64 :: "string \<Rightarrow> int option"
  to_float64 :: "string \<Rightarrow> float64 option"
  np_float64 :: "cell \<Rightarrow> float64 option"
  read_irregular :: "nat option \<Rightarrow> string list list \<Rightarrow> error + frame"

text \<open>
  The conversion of one field to the declared type of its column. The field is \<open>None\<close>
  when the line ends before this column: \<^verbatim>\<open>read_csv\<close> fills the trailing columns of a
  short line with missing values. A missing value is NaN in a float or object column;
  an integer column cannot hold it and the conversion raises \<^verbatim>\<open>ValueError\<close>.
\<close>

fun convert :: "coercion \<Rightarrow> dtype \<Rightarrow> string option \<Rightarrow> error + cell" where
  "convert k object_t None = Inr (FloatV NaN)"
| "convert k object_t (Some s) = Inr (if is_na k s then FloatV NaN else StrV s)"
| "convert k float_t None = Inr (FloatV NaN)"
| "convert k float_t (Some s) =
     (if is_na k s then Inr (FloatV NaN)
      else case to_float64 k s of None \<Rightarrow> Inl ValueError | Some x \<Rightarrow> Inr (FloatV x))"
| "convert k int_t None = Inl ValueError"
| "convert k int_t (Some s) =
     (if is_na k s then Inl ValueError
      else case to_int64 k s of None \<Rightarrow> Inl ValueError | Some i \<Rightarrow> Inr (IntV i))"

text \<open>
  \<^verbatim>\<open>dtype=dtypes\<close>: the type of a column is looked up by name. Every name of
  \<open>column_names\<close> is a key of \<open>dtypes\<close> (lemma \<open>dtypes_total\<close>), so the
  fall-back is never taken.
\<close>

definition dtype_of :: "string \<Rightarrow> dtype" where
  "dtype_of n = (case map_of dtypes n of Some t \<Rightarrow> t | None \<Rightarrow> object_t)"

definition field :: "string list \<Rightarrow> nat \<Rightarrow> string option" where
  "field fs i = (if i < length fs then Some (fs ! i) else None)"

text \<open>
  One line of a table that is as wide as the list of names becomes one row:
  \<^verbatim>\<open>names = column_names\<close> names the fields by position. A line with more fields than
  the table is wide is a \<^verbatim>\<open>ParserError\<close>.
\<close>

definition read_row :: "coercion \<Rightarrow> string list \<Rightarrow> error + row" where
  "read_row k fs =
     (if length column_names < length fs then Inl ParserError
      else traverse
             (\<lambda>(i, n). case convert k (dtype_of n) (field fs i) of
                          Inl e \<Rightarrow> Inl e
                        | Inr c \<Rightarrow> Inr (n, c))
             (enumerate 0 column_names))"

text \<open>
  \<^verbatim>\<open>pandas.read_csv\<close> on a block of lines, the call that dask makes with the arguments
  of the notebook: the lines of a regular block that are not skipped are read one by
  one, and no more of them than \<^verbatim>\<open>nrows\<close> when that argument is given. A block of no
  such line gives the frame of no row.
\<close>

definition take_rows :: "nat option \<Rightarrow> 'a list \<Rightarrow> 'a list" where
  "take_rows nrows xs = (case nrows of None \<Rightarrow> xs | Some n \<Rightarrow> take n xs)"

definition pd_read_csv :: "coercion \<Rightarrow> nat option \<Rightarrow> string list list \<Rightarrow> error + frame" where
  "pd_read_csv k nrows lines =
     (if regular_block lines
      then traverse (read_row k) (take_rows nrows (filter (\<lambda>fs. \<not> blank_line fs) lines))
      else read_irregular k nrows lines)"

text \<open>
  \<^verbatim>\<open>dd.read_csv(country_txt, sep = '\t', names = column_names, dtype=dtypes)\<close> is lazy.
  The call itself looks at the beginning of the file only: it reads the sample, the
  lines that begin within the first \<^verbatim>\<open>sample = 256000\<close> bytes, with
  \<^verbatim>\<open>pandas.read_csv\<close> and \<^verbatim>\<open>nrows = sample_rows = 10\<close>, and raises what that raises. A file
  of no byte has no line, and dask raises \<^verbatim>\<open>ValueError\<close> on it. The blocks are read
  when the frame is computed, each by a call of \<^verbatim>\<open>pandas.read_csv\<close> of its own.

  A line has as many bytes as its fields, the separators between them and the line end.
\<close>

definition sample_bytes :: nat where
  "sample_bytes = 256000"

definition sample_rows :: nat where
  "sample_rows = 10"

definition line_bytes :: "string list \<Rightarrow> nat" where
  "line_bytes fs = sum_list (map length fs) + (length fs - 1) + 1"

fun sample_lines :: "nat \<Rightarrow> string list list \<Rightarrow> string list list" where
  "sample_lines off [] = []"
| "sample_lines off (l # ls) =
     (if off \<le> sample_bytes then l # sample_lines (off + line_bytes l) ls else [])"

definition dd_head :: "coercion \<Rightarrow> string list list \<Rightarrow> error + frame" where
  "dd_head k lines = pd_read_csv k (Some sample_rows) (sample_lines 0 lines)"

text \<open>The call: it returns the blocks of the file, which are still to be read.\<close>

definition read_pandas ::
  "coercion \<Rightarrow> string list list list \<Rightarrow> error + string list list list" where
  "read_pandas k blocks =
     (case dd_head k (concat blocks) of
        Inl e \<Rightarrow> Inl e
      | Inr h \<Rightarrow> if concat blocks = [] then Inl ValueError else Inr blocks)"

text \<open>The computation of the frame: one partition from every block.\<close>

definition read_blocks :: "coercion \<Rightarrow> string list list list \<Rightarrow> error + dask_frame" where
  "read_blocks k blocks = traverse (pd_read_csv k None) blocks"

text \<open>The call for one file and the computation of its frame, one after the other.\<close>

definition dd_read_csv :: "coercion \<Rightarrow> string list list list \<Rightarrow> error + dask_frame" where
  "dd_read_csv k blocks =
     (case read_pandas k blocks of
        Inl e \<Rightarrow> Inl e
      | Inr opened \<Rightarrow> read_blocks k opened)"

text \<open>
  The loop over \<^verbatim>\<open>countries = ['US', 'MX', 'CA']\<close> that fills \<^verbatim>\<open>dd_list\<close>. The files
  are looked up in \<open>fs\<close>, the content of the data folder by path. The three calls of
  \<^verbatim>\<open>dd.read_csv\<close> come first, in the order of the list; the blocks of the three files
  are read after them, in the same order, when \<^verbatim>\<open>mountain_df\<close> is computed. What the
  loader returns is given here with its partitions read.
\<close>

definition data_folder :: string where
  "data_folder = ''data''"

definition countries :: "string list" where
  "countries = [''US'', ''MX'', ''CA'']"

definition path_join :: "string \<Rightarrow> string \<Rightarrow> string" where
  "path_join d f = d @ ''/'' @ f"

definition dd_list ::
  "coercion \<Rightarrow> (string \<Rightarrow> string list list list option) \<Rightarrow> error + dask_frame list" where
  "dd_list k fs =
     (case traverse
             (\<lambda>country. case fs (path_join data_folder (country @ ''.txt'')) of
                           None \<Rightarrow> Inl FileNotFoundError
                         | Some blocks \<Rightarrow> read_pandas k blocks)
             countries of
        Inl e \<Rightarrow> Inl e
      | Inr opened \<Rightarrow> traverse (read_blocks k) opened)"

text \<open>
  \<^verbatim>\<open>dd.concat\<close> puts the partitions of the frames one after the other, in the order
  given; \<^verbatim>\<open>merged_dd = dd.concat(dd_list)\<close>.
\<close>

definition dd_concat :: "dask_frame list \<Rightarrow> dask_frame" where
  "dd_concat frames = concat frames"

definition merged_dd :: "dask_frame list \<Rightarrow> dask_frame" where
  "merged_dd l = dd_concat l"

section \<open>Row Filter\<close>

text \<open>
  The three pandas operations of \<^verbatim>\<open>merged_dd[merged_dd['feature class']== 'T']\<close>:
  the column \<^verbatim>\<open>df[c]\<close> (a \<^verbatim>\<open>KeyError\<close> when a row has no such column), the comparison
  \<^verbatim>\<open>s == v\<close> of a column with a string, cell by cell, and the selection \<^verbatim>\<open>df[mask]\<close> of
  the rows whose mask is true.
\<close>

definition getitem_cell :: "row \<Rightarrow> string \<Rightarrow> error + cell" where
  "getitem_cell r c = (case map_of r c of None \<Rightarrow> Inl KeyError | Some v \<Rightarrow> Inr v)"

definition getitem_col :: "frame \<Rightarrow> string \<Rightarrow> error + series" where
  "getitem_col df c = traverse (\<lambda>r. getitem_cell r c) df"

definition series_eq :: "series \<Rightarrow> string \<Rightarrow> bool list" where
  "series_eq s v = map (\<lambda>c. c = StrV v) s"

definition getitem_mask :: "frame \<Rightarrow> bool list \<Rightarrow> frame" where
  "getitem_mask df m = map fst (filter snd (zip df m))"

text \<open>On a dask dataframe each of the three works partition by partition.\<close>

definition dd_getitem_col :: "dask_frame \<Rightarrow> string \<Rightarrow> error + dask_series" where
  "dd_getitem_col ddf c = traverse (\<lambda>p. getitem_col p c) ddf"

definition dd_series_eq :: "dask_series \<Rightarrow> string \<Rightarrow> bool list list" where
  "dd_series_eq s v = map (\<lambda>p. series_eq p v) s"

definition dd_getitem_mask :: "dask_frame \<Rightarrow> bool list list \<Rightarrow> dask_frame" where
  "dd_getitem_mask ddf ms = map (\<lambda>(p, m). getitem_mask p m) (zip ddf ms)"

text \<open>
  The expression \<^verbatim>\<open>ddf[ddf['feature class'] == v]\<close>; the notebook evaluates it at
  \<^verbatim>\<open>v = 'T'\<close> and calls the result \<^verbatim>\<open>mountain_dd\<close>.
\<close>

definition row_filter :: "dask_frame \<Rightarrow> string \<Rightarrow> error + dask_frame" where
  "row_filter ddf v =
     (case dd_getitem_col ddf ''feature class'' of
        Inl e \<Rightarrow> Inl e
      | Inr s \<Rightarrow> Inr (dd_getitem_mask ddf (dd_series_eq s v)))"

definition mountain_dd :: "dask_frame \<Rightarrow> error + dask_frame" where
  "mountain_dd merged = row_filter merged ''T''"

section \<open>Geometry Builder\<close>

text \<open>
  \<^verbatim>\<open>points_from_xy\<close> turns the two coordinate columns into \<^verbatim>\<open>float64\<close> arrays and pairs
  them into points. A float cell is taken as it is, NaN and any magnitude included: no
  range is checked. Any other cell goes through numpy's conversion, which raises
  \<^verbatim>\<open>ValueError\<close> on text that is no number.
\<close>

fun as_float64 :: "coercion \<Rightarrow> cell \<Rightarrow> error + float64" where
  "as_float64 k (FloatV x) = Inr x"
| "as_float64 k c = (case np_float64 k c of None \<Rightarrow> Inl ValueError | Some x \<Rightarrow> Inr x)"

definition pd_points_from_xy :: "coercion \<Rightarrow> frame \<Rightarrow> string \<Rightarrow> string \<Rightarrow> error + series" where
  "pd_points_from_xy k df x y =
     (case getitem_col df x of
        Inl e \<Rightarrow> Inl e
      | Inr xs \<Rightarrow>
     (case getitem_col df y of
        Inl e \<Rightarrow> Inl e
      | Inr ys \<Rightarrow>
     (case traverse (as_float64 k) xs of
        Inl e \<Rightarrow> Inl e
      | Inr xa \<Rightarrow>
     (case traverse (as_float64 k) ys of
        Inl e \<Rightarrow> Inl e
      | Inr ya \<Rightarrow> Inr (map (\<lambda>(a, b). GeomV (Point a b)) (zip xa ya))))))"

text \<open>
  \<^verbatim>\<open>dg.points_from_xy(ddf, x, y, crs = crs)\<close>: a geometry series with the partitions
  of \<open>ddf\<close>; the reference system is one value for the whole series.
\<close>

definition points_from_xy ::
  "coercion \<Rightarrow> dask_frame \<Rightarrow> string \<Rightarrow> string \<Rightarrow> string \<Rightarrow> error + string \<times> dask_series" where
  "points_from_xy k ddf x y crs =
     (case traverse (\<lambda>p. pd_points_from_xy k p x y) ddf of
        Inl e \<Rightarrow> Inl e
      | Inr g \<Rightarrow> Inr (crs, g))"

text \<open>
  The assignment \<^verbatim>\<open>ddf[c] = s\<close>: the column \<open>c\<close> of every row is set to the cell of the
  series at that row, replacing a column of that name or added as the last one.
\<close>

definition setitem :: "frame \<Rightarrow> string \<Rightarrow> series \<Rightarrow> frame" where
  "setitem df c s = map (\<lambda>(r, v). AList.update c v r) (zip df s)"

definition dd_setitem :: "dask_frame \<Rightarrow> string \<Rightarrow> dask_series \<Rightarrow> dask_frame" where
  "dd_setitem ddf c s = map (\<lambda>(p, q). setitem p c q) (zip ddf s)"

text \<open>
  \<^verbatim>\<open>mountain_dd['geometry'] = dg.points_from_xy(mountain_dd, 'longitude', 'latitude',
  crs = 'EPSG:4326')\<close>: the frame with its new column, and the reference system that the
  geometry column carries.
\<close>

definition mountain_dd_geometry ::
  "coercion \<Rightarrow> dask_frame \<Rightarrow> error + string \<times> dask_frame" where
  "mountain_dd_geometry k mdd =
     (case points_from_xy k mdd ''longitude'' ''latitude'' ''EPSG:4326'' of
        Inl e \<Rightarrow> Inl e
      | Inr (crs, g) \<Rightarrow> Inr (crs, dd_setitem mdd ''geometry'' g))"

text \<open>
  \<^verbatim>\<open>mountain_df = dg.from_dask_dataframe(mountain_dd).compute()\<close>: the in-memory
  GeoDataFrame, the partitions concatenated in their order. It carries the reference
  system of its geometry column; a frame of no row comes out with none.
\<close>

record geodataframe =
  gdf_crs :: "string option"
  gdf_rows :: frame

definition mountain_df :: "string \<times> dask_frame \<Rightarrow> geodataframe" where
  "mountain_df g =
     \<lparr>gdf_crs = (if compute (snd g) = [] then None else Some (fst g)),
      gdf_rows = compute (snd g)\<rparr>"

section \<open>Spatial Writer\<close>

text \<open>
  A GeoPackage holds named layers. The notebook calls \<^verbatim>\<open>to_file\<close> without the argument
  \<^verbatim>\<open>mode\<close>, which is then \<^verbatim>\<open>'w'\<close>: a layer of the given name that is already in the file
  is deleted and the layer is created anew from the frame; the other layers of the file
  stay. \<open>existing\<close> is the container at the output path before the call, \<open>None\<close> when
  there is no file. The rows are written with their columns; the index of a frame read
  from regular blocks is the default one of integers, which \<^verbatim>\<open>to_file\<close> does not write.
  The function gives the container after a write that went through; what a failing file
  system leaves behind is not described by it.
\<close>

record layer =
  layer_crs :: "string option"
  layer_encoding :: string
  features :: frame

type_synonym container = "(string \<times> layer) list"

definition to_file ::
  "geodataframe \<Rightarrow> container option \<Rightarrow> string \<Rightarrow> string \<Rightarrow> container" where
  "to_file gdf existing name encoding =
     AList.delete name (case existing of None \<Rightarrow> [] | Some c \<Rightarrow> c) @
     [(name, \<lparr>layer_crs = gdf_crs gdf, layer_encoding = encoding, features = gdf_rows gdf\<rparr>)]"

section \<open>The notebook\<close>

definition output_folder :: string where
  "output_folder = ''output''"

definition output_filename :: string where
  "output_filename = ''mountains.gpkg''"

definition output_path :: string where
  "output_path = path_join output_folder output_filename"

text \<open>
  The cells of the notebook in their order, from the text files \<open>fs\<close> of the data folder
  to the value of \<^verbatim>\<open>mountain_df\<close>.
\<close>

definition run_cells ::
  "coercion \<Rightarrow> (string \<Rightarrow> string list list list option) \<Rightarrow> error + geodataframe" where
  "run_cells k fs =
     (case dd_list k fs of
        Inl e \<Rightarrow> Inl e
      | Inr l \<Rightarrow>
     (case mountain_dd (merged_dd l) of
        Inl e \<Rightarrow> Inl e
      | Inr mdd \<Rightarrow>
     (case mountain_dd_geometry k mdd of
        Inl e \<Rightarrow> Inl e
      | Inr g \<Rightarrow> Inr (mountain_df g))))"

text \<open>
  The last cell: \<^verbatim>\<open>mountain_df.to_file(driver='GPKG', filename = output_path,
  layer = 'mountains', encoding='utf-8')\<close>, from the containers \<open>out\<close> of the output
  folder to the containers after the call.
\<close>

definition notebook ::
  "coercion \<Rightarrow> (string \<Rightarrow> string list list list option) \<Rightarrow> (string \<Rightarrow> container option)
     \<Rightarrow> error + (string \<Rightarrow> container option)" where
  "notebook k fs out =
     (case run_cells k fs of
        Inl e \<Rightarrow> Inl e
      | Inr gdf \<Rightarrow>
          Inr (out(output_path \<mapsto> to_file gdf (out output_path) ''mountains'' ''utf-8'')))"

section \<open>The coordinate ranges of the specification\<close>

text \<open>
  The specification gives a record a latitude in \<open>[-90, 90]\<close> and a longitude in
  \<open>[-180, 180]\<close>. The notebook has no such check; the predicate is here to state what
  the Geometry Builder does with coordinates outside the ranges.
\<close>

fun spec_in_range :: "real \<Rightarrow> real \<Rightarrow> float64 \<Rightarrow> bool" where
  "spec_in_range lo hi (Finite x) = (lo \<le> x \<and> x \<le> hi)"
| "spec_in_range lo hi v = False"

definition spec_valid_coordinates :: "row \<Rightarrow> bool" where
  "spec_valid_coordinates r =
     (case (map_of r ''longitude'', map_of r ''latitude'') of
        (Some (FloatV x), Some (FloatV y)) \<Rightarrow>
          spec_in_range (- 180) 180 x \<and> spec_in_range (- 90) 90 y
      | _ \<Rightarrow> False)"

section \<open>What the Geometry Builder attaches\<close>

text \<open>
  The float of a column of a row, the row with the point of its two coordinates as the
  column \<^verbatim>\<open>geometry\<close>, and the rows whose two coordinate cells are floats, as they are in
  every frame that \<^verbatim>\<open>read_csv\<close> returns with the \<^verbatim>\<open>dtypes\<close> of the notebook.
\<close>

definition float_at :: "row \<Rightarrow> string \<Rightarrow> float64" where
  "float_at r c = (case map_of r c of Some (FloatV v) \<Rightarrow> v | _ \<Rightarrow> NaN)"

definition with_point :: "row \<Rightarrow> row" where
  "with_point r =
     AList.update ''geometry'' (GeomV (Point (float_at r ''longitude'') (float_at r ''latitude''))) r"

definition float_columns :: "row \<Rightarrow> bool" where
  "float_columns r \<longleftrightarrow>
     (\<exists>a b. map_of r ''longitude'' = Some (FloatV a) \<and> map_of r ''latitude'' = Some (FloatV b))"

text \<open>
  The relation between a row and the row that the assignment of the geometry column makes
  of it: both coordinate cells convert to floats, and the point of the two floats is set.
\<close>

definition attached :: "coercion \<Rightarrow> row \<Rightarrow> row \<Rightarrow> bool" where
  "attached k r s \<longleftrightarrow>
     (\<exists>cx cy a b. map_of r ''longitude'' = Some cx \<and> map_of r ''latitude'' = Some cy \<and>
        as_float64 k cx = Inr a \<and> as_float64 k cy = Inr b \<and>
        s = AList.update ''geometry'' (GeomV (Point a b)) r)"

section \<open>Files of narrow lines\<close>

text \<open>
  A narrow line has plain fields, and no more of them than there are names; in a file of
  narrow lines every block is regular, however the file is cut.
\<close>

definition narrow_line :: "string list \<Rightarrow> bool" where
  "narrow_line fs \<longleftrightarrow> length fs \<le> length column_names \<and> list_all plain_field fs"

definition narrow_file :: "string list list list \<Rightarrow> bool" where
  "narrow_file blocks \<longleftrightarrow> list_all (list_all narrow_line) blocks"

section \<open>Concrete inputs\<close>

text \<open>
  A conversion for the examples. Its missing-value markers are the default ones of
  \<^verbatim>\<open>read_csv\<close>; its parsers know plain decimal integers only, which is all that the
  lines below hold.
\<close>

definition default_na :: "string list" where
  "default_na =
     ['''', ''#N/A'', ''#N/A N/A'', ''#NA'', ''-1.#IND'', ''-1.#QNAN'', ''-NaN'', ''-nan'',
      ''1.#IND'', ''1.#QNAN'', ''<NA>'', ''N/A'', ''NA'', ''NULL'', ''NaN'', ''None'',
      ''n/a'', ''nan'', ''null'']"

definition digit_of :: "char \<Rightarrow> nat option" where
  "digit_of c =
     map_of [(CHR ''0'', 0), (CHR ''1'', 1), (CHR ''2'', 2), (CHR ''3'', 3), (CHR ''4'', 4),
             (CHR ''5'', 5), (CHR ''6'', 6), (CHR ''7'', 7), (CHR ''8'', 8), (CHR ''9'', 9)] c"

fun digits_value :: "nat \<Rightarrow> string \<Rightarrow> nat option" where
  "digits_value acc [] = Some acc"
| "digits_value acc (c # cs) =
     (case digit_of c of None \<Rightarrow> None | Some d \<Rightarrow> digits_value (10 * acc + d) cs)"

fun decimal :: "string \<Rightarrow> int option" where
  "decimal [] = None"
| "decimal (c # cs) =
     (if c = CHR ''-''
      then (if cs = [] then None else map_option (\<lambda>n. - int n) (digits_value 0 cs))
      else map_option int (digits_value 0 (c # cs)))"

definition plain_parsers :: coercion where
  "plain_parsers =
     \<lparr>is_na = (\<lambda>s. s \<in> set default_na),
      to_int64 = decimal,
      to_float64 = (\<lambda>s. map_option (\<lambda>i. Finite (real_of_int i)) (decimal s)),
      np_float64 = (\<lambda>c. case c of IntV i \<Rightarrow> Some (Finite (real_of_int i)) | _ \<Rightarrow> None),
      read_irregular = (\<lambda>nrows lines. Inl ParserError)\<rparr>"

text \<open>
  A block of plain fields whose first line has more fields than there are names: the
  table is as wide as that line, a longer line is a \<^verbatim>\<open>ParserError\<close>, and of every line
  the surplus leading fields go to the index and the fields after them are read as the
  row; no more rows are read than \<^verbatim>\<open>nrows\<close>. The conversion of the examples reads blocks
  of plain fields only.
\<close>

definition read_shifted :: "coercion \<Rightarrow> nat option \<Rightarrow> string list list \<Rightarrow> error + frame" where
  "read_shifted k nrows lines =
     (case filter (\<lambda>fs. \<not> blank_line fs) lines of
        [] \<Rightarrow> Inr []
      | first # rest \<Rightarrow>
          traverse
            (\<lambda>fs. if max (length column_names) (length first) < length fs then Inl ParserError
                   else read_row k (drop (length first - length column_names) fs))
            (take_rows nrows (first # rest)))"

definition plain_coercion :: coercion where
  "plain_coercion = plain_parsers\<lparr>read_irregular := read_shifted plain_parsers\<rparr>"

text \<open>
  Lines of a GeoNames file: a peak, a town, a peak whose coordinates are outside the
  ranges, a lake, the line of the peak without its last field, and the line of the peak
  with one field too many in front.
\<close>

definition peak_line :: "string list" where
  "peak_line =
     [''5'', ''Peak'', ''Peak'', '''', ''40'', ''-105'', ''T'', ''MT'', ''US'', '''',
      ''CO'', '''', '''', '''', ''0'', ''4000'', ''4001'', ''America/Denver'', ''2020-01-01'']"

definition town_line :: "string list" where
  "town_line =
     [''6'', ''Town'', ''Town'', '''', ''41'', ''-104'', ''P'', ''PPL'', ''US'', '''',
      ''WY'', '''', '''', '''', ''900'', '''', ''1800'', ''America/Denver'', ''2020-01-02'']"

definition far_line :: "string list" where
  "far_line =
     [''7'', ''Far'', ''Far'', '''', ''95'', ''200'', ''T'', ''MT'', ''MX'', '''',
      '''', '''', '''', '''', ''0'', '''', ''10'', ''America/Mexico_City'', ''2020-01-03'']"

definition lake_line :: "string list" where
  "lake_line =
     [''8'', ''Lake'', ''Lake'', '''', ''50'', ''-100'', ''H'', ''LK'', ''CA'', '''',
      ''MB'', '''', '''', '''', ''0'', '''', ''250'', ''America/Winnipeg'', ''2020-01-04'']"

definition short_line :: "string list" where
  "short_line = butlast peak_line"

definition wide_line :: "string list" where
  "wide_line = ''9'' # peak_line"

definition peak_row :: row where
  "peak_row =
     [(''geonameid'', IntV 5), (''name'', StrV ''Peak''), (''asciiname'', StrV ''Peak''),
      (''alternatenames'', FloatV NaN), (''latitude'', FloatV (Finite 40)),
      (''longitude'', FloatV (Finite (- 105))), (''feature class'', StrV ''T''),
      (''feature code'', StrV ''MT''), (''country code'', StrV ''US''), (''cc2'', FloatV NaN),
      (''admin1 code'', StrV ''CO''), (''admin2 code'', FloatV NaN),
      (''admin3 code'', FloatV NaN), (''admin4 code'', FloatV NaN), (''population'', IntV 0),
      (''elevation'', FloatV (Finite 4000)), (''dem'', IntV 4001),
      (''timezone'', StrV ''America/Denver''), (''modification date'', StrV ''2020-01-01'')]"

definition town_row :: row where
  "town_row =
     [(''geonameid'', IntV 6), (''name'', StrV ''Town''), (''asciiname'', StrV ''Town''),
      (''alternatenames'', FloatV NaN), (''latitude'', FloatV (Finite 41)),
      (''longitude'', FloatV (Finite (- 104))), (''feature class'', StrV ''P''),
      (''feature code'', StrV ''PPL''), (''country code'', StrV ''US''), (''cc2'', FloatV NaN),
      (''admin1 code'', StrV ''WY''), (''admin2 code'', FloatV NaN),
      (''admin3 code'', FloatV NaN), (''admin4 code'', FloatV NaN), (''population'', IntV 900),
      (''elevation'', FloatV NaN), (''dem'', IntV 1800),
      (''timezone'', StrV ''America/Denver''), (''modification date'', StrV ''2020-01-02'')]"

definition far_row :: row where
  "far_row =
     [(''geonameid'', IntV 7), (''name'', StrV ''Far''), (''asciiname'', StrV ''Far''),
      (''alternatenames'', FloatV NaN), (''latitude'', FloatV (Finite 95)),
      (''longitude'', FloatV (Finite 200)), (''feature class'', StrV ''T''),
      (''feature code'', StrV ''MT''), (''country code'', StrV ''MX''), (''cc2'', FloatV NaN),
      (''admin1 code'', FloatV NaN), (''admin2 code'', FloatV NaN),
      (''admin3 code'', FloatV NaN), (''admin4 code'', FloatV NaN), (''population'', IntV 0),
      (''elevation'', FloatV NaN), (''dem'', IntV 10),
      (''timezone'', StrV ''America/Mexico_City''), (''modification date'', StrV ''2020-01-03'')]"

definition short_row :: row where
  "short_row = butlast peak_row @ [(''modification date'', FloatV NaN)]"

definition lake_row :: row where
  "lake_row =
     [(''geonameid'', IntV 8), (''name'', StrV ''Lake''), (''asciiname'', StrV ''Lake''),
      (''alternatenames'', FloatV NaN), (''latitude'', FloatV (Finite 50)),
      (''longitude'', FloatV (Finite (- 100))), (''feature class'', StrV ''H''),
      (''feature code'', StrV ''LK''), (''country code'', StrV ''CA''), (''cc2'', FloatV NaN),
      (''admin1 code'', StrV ''MB''), (''admin2 code'', FloatV NaN),
      (''admin3 code'', FloatV NaN), (''admin4 code'', FloatV NaN), (''population'', IntV 0),
      (''elevation'', FloatV NaN), (''dem'', IntV 250),
      (''timezone'', StrV ''America/Winnipeg''), (''modification date'', StrV ''2020-01-04'')]"



text \<open>
  The three files of the data folder, once with every file in one block and once with
  the first file cut into two blocks.
\<close>

definition sample_files :: "string \<Rightarrow> string list list list option" where
  "sample_files = map_of
     [(''data/US.txt'', [[peak_line, town_line]]), (''data/MX.txt'', [[far_line]]),
      (''data/CA.txt'', [[lake_line]])]"

definition sample_files_split :: "string \<Rightarrow> string list list list option" where
  "sample_files_split = map_of
     [(''data/US.txt'', [[peak_line], [town_line]]), (''data/MX.txt'', [[far_line]]),
      (''data/CA.txt'', [[lake_line]])]"

text \<open>
  The same with a first file of ten lines of nineteen fields and an eleventh line of
  twenty, in one block and cut before that line.
\<close>

definition wide_files :: "string \<Rightarrow> string list list list option" where
  "wide_files = map_of
     [(''data/US.txt'', [replicate 10 town_line @ [wide_line]]), (''data/MX.txt'', [[far_line]]),
      (''data/CA.txt'', [[lake_line]])]"

definition wide_files_split :: "string \<Rightarrow> string list list list option" where
  "wide_files_split = map_of
     [(''data/US.txt'', [replicate 10 town_line, [wide_line]]), (''data/MX.txt'', [[far_line]]),
      (''data/CA.txt'', [[lake_line]])]"

section \<open>Properties of the stages\<close>

subsection \<open>Steps that may raise\<close>

lemma traverse_Inr_iff:
  "traverse f xs = Inr ys \<longleftrightarrow> list_all2 (\<lambda>x y. f x = Inr y) xs ys"
proof (induction xs arbitrary: ys)
  case Nil
  then show ?case by auto
next
  case (Cons x xs)
  show ?case
  proof (cases ys)
    case Nil
    then show ?thesis by (auto split: sum.splits)
  next
    case (Cons y ys')
    have "traverse f xs = Inr ys' \<longleftrightarrow> list_all2 (\<lambda>x y. f x = Inr y) xs ys'"
      by (rule Cons.IH)
    then show ?thesis
      unfolding Cons by (cases "f x"; cases "traverse f xs") auto
  qed
qed

lemma traverse_append:
  "traverse f (xs @ ys) =
     (case traverse f xs of
        Inl e \<Rightarrow> Inl e
      | Inr a \<Rightarrow> (case traverse f ys of Inl e \<Rightarrow> Inl e | Inr b \<Rightarrow> Inr (a @ b)))"
  by (induction xs) (auto split: sum.splits)



lemma traverse_total: "(\<And>x. x \<in> set xs \<Longrightarrow> f x = Inr (g x)) \<Longrightarrow> traverse f xs = Inr (map g xs)"
  by (induction xs) auto

lemma traverse_concat:
  "map_sum id concat (traverse (traverse f) xss) = traverse f (concat xss)"
  by (induction xss) (auto simp: traverse_append split: sum.splits)

lemma traverse_Inr_set:
  "traverse f xs = Inr ys \<Longrightarrow> y \<in> set ys \<Longrightarrow> \<exists>x\<in>set xs. f x = Inr y"
  by (induction xs arbitrary: ys) (auto split: sum.splits)

lemma traverse_length: "traverse f xs = Inr ys \<Longrightarrow> length ys = length xs"
  by (simp add: traverse_Inr_iff list_all2_lengthD)


lemma traverse_prefix_Inr:
  "prefix xs ys \<Longrightarrow> traverse f ys = Inr r \<Longrightarrow> \<exists>r'. traverse f xs = Inr r'"
  by (auto simp: prefix_def traverse_append split: sum.splits)

lemma traverse_map: "traverse f (map h xs) = traverse (\<lambda>x. f (h x)) xs"
  by (induction xs) (simp_all split: sum.splits)

lemma traverse_replicate: "f x = Inr y \<Longrightarrow> traverse f (replicate n x) = Inr (replicate n y)"
  by (induction n) auto

subsection \<open>The selection of rows\<close>

lemma getitem_col_mask:
  "getitem_col df c = Inr s \<Longrightarrow>
   getitem_mask df (series_eq s v) = filter (\<lambda>r. map_of r c = Some (StrV v)) df"
proof (induction df arbitrary: s)
  case Nil
  then show ?case by (simp add: getitem_col_def getitem_mask_def series_eq_def)
next
  case (Cons r df)
  then show ?case
    by (auto simp: getitem_col_def getitem_mask_def series_eq_def getitem_cell_def
        split: sum.splits option.splits)
qed

lemma row_filter_parts:
  "row_filter ddf v = Inr F \<Longrightarrow>
   F = map (filter (\<lambda>r. map_of r ''feature class'' = Some (StrV v))) ddf"
proof (induction ddf arbitrary: F)
  case Nil
  then show ?case by (simp add: row_filter_def dd_getitem_col_def dd_getitem_mask_def dd_series_eq_def)
next
  case (Cons p ddf)
  then show ?case
    by (auto simp: row_filter_def dd_getitem_col_def dd_getitem_mask_def dd_series_eq_def
        getitem_col_mask split: sum.splits)
qed

lemma row_filter_compute:
  "row_filter ddf v = Inr F \<Longrightarrow>
   compute F = filter (\<lambda>r. map_of r ''feature class'' = Some (StrV v)) (compute ddf)"
  using row_filter_parts [of ddf v F] by (simp add: compute_def filter_concat)

lemma getitem_col_total:
  "(\<And>r. r \<in> set df \<Longrightarrow> map_of r c \<noteq> None) \<Longrightarrow> \<exists>s. getitem_col df c = Inr s"
  unfolding getitem_col_def
  by (rule exI, rule traverse_total [where g = "\<lambda>r. the (map_of r c)"])
    (auto simp: getitem_cell_def split: option.splits)

lemma row_filter_total:
  assumes "\<And>r. r \<in> set (compute ddf) \<Longrightarrow> map_of r ''feature class'' \<noteq> None"
  shows "\<exists>F. row_filter ddf v = Inr F"
proof -
  have "\<And>p. p \<in> set ddf \<Longrightarrow> \<exists>s. getitem_col p ''feature class'' = Inr s"
    using assms by (intro getitem_col_total) (auto simp: compute_def)
  then obtain g where g: "\<And>p. p \<in> set ddf \<Longrightarrow> getitem_col p ''feature class'' = Inr (g p)"
    by metis
  have "dd_getitem_col ddf ''feature class'' = Inr (map g ddf)"
    unfolding dd_getitem_col_def using g by (intro traverse_total) auto
  then show ?thesis by (simp add: row_filter_def)
qed

subsection \<open>The rows of a loaded frame\<close>

lemma distinct_column_names: "distinct column_names"
  by (simp add: column_names_def)

lemma length_column_names: "length column_names = 19"
  by (simp add: column_names_def)

lemma dtypes_total: "n \<in> set column_names \<Longrightarrow> map_of dtypes n \<noteq> None"
  by (auto simp: column_names_def dtypes_def)

lemma read_row_keys:
  assumes "read_row k fs = Inr r"
  shows "map fst r = column_names"
proof -
  from assms have "list_all2 (\<lambda>x y. fst y = snd x) (enumerate 0 column_names) r"
    by (auto simp: read_row_def traverse_Inr_iff split: if_splits sum.splits
        elim!: list_all2_mono)
  then have "map fst r = map snd (enumerate 0 column_names)"
    by (induction rule: list_all2_induct) auto
  then show ?thesis by simp
qed

lemma read_row_cell:
  assumes "read_row k fs = Inr r" and "i < length column_names"
  shows "\<exists>c. map_of r (column_names ! i) = Some c \<and>
             convert k (dtype_of (column_names ! i)) (field fs i) = Inr c"
proof -
  from assms(1) have all2:
    "list_all2 (\<lambda>x y. (case x of (i, n) \<Rightarrow>
         (case convert k (dtype_of n) (field fs i) of Inl e \<Rightarrow> Inl e | Inr c \<Rightarrow> Inr (n, c))) = Inr y)
       (enumerate 0 column_names) r"
    by (simp add: read_row_def traverse_Inr_iff split: if_splits)
  then have len: "length r = length column_names"
    by (auto dest: list_all2_lengthD)
  from all2 assms(2) have
    "(case enumerate 0 column_names ! i of (i, n) \<Rightarrow>
         (case convert k (dtype_of n) (field fs i) of Inl e \<Rightarrow> Inl e | Inr c \<Rightarrow> Inr (n, c))) = Inr (r ! i)"
    by (auto dest: list_all2_nthD)
  with assms(2) obtain c where c: "convert k (dtype_of (column_names ! i)) (field fs i) = Inr c"
    and ri: "r ! i = (column_names ! i, c)"
    by (auto simp: nth_enumerate_eq split: sum.splits)
  have "distinct (map fst r)"
    using read_row_keys [OF assms(1)] distinct_column_names by simp
  moreover have "(column_names ! i, c) \<in> set r"
    using ri len assms(2) by (metis nth_mem)
  ultimately have "map_of r (column_names ! i) = Some c" by simp
  with c show ?thesis by blast
qed

lemma convert_float_cell: "convert k float_t x = Inr c \<Longrightarrow> \<exists>v. c = FloatV v"
  by (cases x) (auto split: if_splits option.splits)


lemma read_row_latitude:
  assumes "read_row k fs = Inr r"
  shows "\<exists>v. map_of r ''latitude'' = Some (FloatV v)"
proof -
  have "column_names ! 4 = ''latitude''" by (simp add: column_names_def)
  moreover have "dtype_of ''latitude'' = float_t" by (simp add: dtype_of_def dtypes_def)
  ultimately show ?thesis
    using read_row_cell [OF assms, of 4] convert_float_cell
    by (fastforce simp: length_column_names)
qed

lemma read_row_longitude:
  assumes "read_row k fs = Inr r"
  shows "\<exists>v. map_of r ''longitude'' = Some (FloatV v)"
proof -
  have "column_names ! 5 = ''longitude''" by (simp add: column_names_def)
  moreover have "dtype_of ''longitude'' = float_t" by (simp add: dtype_of_def dtypes_def)
  ultimately show ?thesis
    using read_row_cell [OF assms, of 5] convert_float_cell
    by (fastforce simp: length_column_names)
qed

lemma read_row_feature_class:
  assumes "read_row k fs = Inr r"
  shows "map_of r ''feature class'' \<noteq> None"
proof -
  have "column_names ! 6 = ''feature class''" by (simp add: column_names_def)
  then show ?thesis
    using read_row_cell [OF assms, of 6] by (auto simp: length_column_names)
qed

lemma pd_read_csv_regular:
  "regular_block lines \<Longrightarrow>
   pd_read_csv k None lines = traverse (read_row k) (filter (\<lambda>fs. \<not> blank_line fs) lines)"
  by (simp add: pd_read_csv_def take_rows_def)

lemma pd_read_csv_rows:
  assumes "regular_block lines" and "pd_read_csv k None lines = Inr df" and "r \<in> set df"
  shows "\<exists>fs\<in>set lines. \<not> blank_line fs \<and> read_row k fs = Inr r"
  using traverse_Inr_set [of "read_row k" "filter (\<lambda>fs. \<not> blank_line fs) lines" df r] assms
  by (auto simp: pd_read_csv_regular)

lemma read_pandas_Inr: "read_pandas k blocks = Inr opened \<Longrightarrow> opened = blocks"
  by (auto simp: read_pandas_def split: sum.splits if_splits)


lemma read_blocks_rows:
  assumes "list_all regular_block blocks" and "read_blocks k blocks = Inr D"
    and "r \<in> set (compute D)"
  shows "\<exists>fs\<in>set (concat blocks). \<not> blank_line fs \<and> read_row k fs = Inr r"
proof -
  from assms(2) have tr: "traverse (pd_read_csv k None) blocks = Inr D"
    by (simp add: read_blocks_def)
  from assms(3) obtain df where df: "df \<in> set D" "r \<in> set df"
    by (auto simp: compute_def)
  with tr obtain block where block: "block \<in> set blocks" "pd_read_csv k None block = Inr df"
    by (blast dest: traverse_Inr_set)
  have "regular_block block"
    using assms(1) block(1) by (simp add: list_all_iff)
  from pd_read_csv_rows [OF this block(2) df(2)] block(1) show ?thesis by auto
qed


lemma narrow_regular:
  assumes "list_all narrow_line lines"
  shows "regular_block lines"
proof -
  have plain: "list_all (list_all plain_field) lines"
    using assms by (auto simp: list_all_iff narrow_line_def)
  have "length first \<le> length column_names"
    if "filter (\<lambda>fs. \<not> blank_line fs) lines = first # rest" for first rest
  proof -
    have "first \<in> set (filter (\<lambda>fs. \<not> blank_line fs) lines)"
      by (simp add: that)
    then have "first \<in> set lines" by simp
    with assms show ?thesis by (auto simp: list_all_iff narrow_line_def)
  qed
  with plain show ?thesis
    by (auto simp: regular_block_def split: list.splits)
qed

lemma narrow_file_concat: "narrow_file blocks \<longleftrightarrow> list_all narrow_line (concat blocks)"
  by (auto simp: narrow_file_def list_all_iff)

lemma narrow_file_regular: "narrow_file blocks \<Longrightarrow> list_all regular_block blocks"
  by (auto simp: narrow_file_def list_all_iff intro!: narrow_regular)

lemma traverse_pd_read_csv:
  "list_all regular_block blocks \<Longrightarrow>
   map_sum id concat (traverse (pd_read_csv k None) blocks) =
   traverse (read_row k) (filter (\<lambda>fs. \<not> blank_line fs) (concat blocks))"
  by (induction blocks) (auto simp: pd_read_csv_regular traverse_append split: sum.splits)

lemma read_blocks_narrow:
  "narrow_file blocks \<Longrightarrow>
   map_sum id compute (read_blocks k blocks) =
   traverse (read_row k) (filter (\<lambda>fs. \<not> blank_line fs) (concat blocks))"
  using traverse_pd_read_csv [OF narrow_file_regular, of blocks k]
  by (simp add: read_blocks_def compute_def [abs_def])

lemma sample_lines_prefix: "prefix (sample_lines off ls) ls"
  by (induction ls arbitrary: off) auto

lemma sample_lines_small:
  "off + sum_list (map line_bytes ls) \<le> sample_bytes \<Longrightarrow> sample_lines off ls = ls"
  by (induction ls arbitrary: off) (auto simp: add.assoc)

lemma head_rows_prefix:
  "prefix (take n (filter P (sample_lines off ls))) (filter P ls)"
proof -
  have "prefix (take n (filter P (sample_lines off ls))) (filter P (sample_lines off ls))"
    by (rule take_is_prefix)
  moreover have "prefix (filter P (sample_lines off ls)) (filter P ls)"
    using sample_lines_prefix by (rule filter_mono_prefix)
  ultimately show ?thesis by (rule prefix_order.trans)
qed

lemma dd_head_narrow:
  assumes "list_all narrow_line ls"
  shows "dd_head k ls =
         traverse (read_row k)
           (take sample_rows (filter (\<lambda>fs. \<not> blank_line fs) (sample_lines 0 ls)))"
proof -
  have "set (sample_lines 0 ls) \<subseteq> set ls"
    using sample_lines_prefix [of 0 ls] by (rule set_mono_prefix)
  with assms have "list_all narrow_line (sample_lines 0 ls)"
    by (auto simp: list_all_iff)
  then have "regular_block (sample_lines 0 ls)"
    by (rule narrow_regular)
  then show ?thesis
    by (simp add: dd_head_def pd_read_csv_def take_rows_def)
qed

lemma read_pandas_narrow:
  assumes "narrow_file blocks"
  shows "read_pandas k blocks =
     (case traverse (read_row k)
             (take sample_rows (filter (\<lambda>fs. \<not> blank_line fs) (sample_lines 0 (concat blocks)))) of
        Inl e \<Rightarrow> Inl e
      | Inr h \<Rightarrow> if concat blocks = [] then Inl ValueError else Inr blocks)"
  using assms by (simp add: read_pandas_def dd_head_narrow narrow_file_concat)

lemma read_pandas_loads:
  assumes "narrow_file blocks" and "concat blocks \<noteq> []"
    and "traverse (read_row k) (filter (\<lambda>fs. \<not> blank_line fs) (concat blocks)) = Inr rows"
  shows "read_pandas k blocks = Inr blocks"
proof -
  obtain h where "traverse (read_row k)
      (take sample_rows (filter (\<lambda>fs. \<not> blank_line fs) (sample_lines 0 (concat blocks)))) = Inr h"
    using traverse_prefix_Inr [OF head_rows_prefix assms(3)] by blast
  with assms(2) show ?thesis
    by (simp add: read_pandas_narrow [OF assms(1)] del: concat_eq_Nil_conv)
qed



subsection \<open>The geometry column\<close>

lemma pd_points_from_xy_Inr:
  "pd_points_from_xy k df x y = Inr g \<Longrightarrow>
   list_all2 (\<lambda>r c. \<exists>cx cy a b. map_of r x = Some cx \<and> map_of r y = Some cy \<and>
       as_float64 k cx = Inr a \<and> as_float64 k cy = Inr b \<and> c = GeomV (Point a b)) df g"
proof (induction df arbitrary: g)
  case Nil
  then show ?case by (simp add: pd_points_from_xy_def getitem_col_def)
next
  case (Cons r df)
  from Cons.prems obtain cx cy a b xs ys xa ya where
    r: "map_of r x = Some cx" "map_of r y = Some cy" "as_float64 k cx = Inr a"
      "as_float64 k cy = Inr b" and
    df: "getitem_col df x = Inr xs" "getitem_col df y = Inr ys"
      "traverse (as_float64 k) xs = Inr xa" "traverse (as_float64 k) ys = Inr ya" and
    g: "g = GeomV (Point a b) # map (\<lambda>(a, b). GeomV (Point a b)) (zip xa ya)"
    by (auto simp: pd_points_from_xy_def getitem_col_def getitem_cell_def
        split: sum.splits option.splits)
  from df have "pd_points_from_xy k df x y = Inr (map (\<lambda>(a, b). GeomV (Point a b)) (zip xa ya))"
    by (simp add: pd_points_from_xy_def)
  from Cons.IH [OF this] r g show ?case by simp
qed

lemma setitem_points:
  "list_all2 (\<lambda>r c. \<exists>cx cy a b. map_of r ''longitude'' = Some cx \<and> map_of r ''latitude'' = Some cy \<and>
       as_float64 k cx = Inr a \<and> as_float64 k cy = Inr b \<and> c = GeomV (Point a b)) df g \<Longrightarrow>
   list_all2 (attached k) df (setitem df ''geometry'' g)"
  by (induction rule: list_all2_induct) (auto simp: setitem_def attached_def)

lemma list_all2_concat:
  "list_all2 (list_all2 R) xss yss \<Longrightarrow> list_all2 R (concat xss) (concat yss)"
  by (induction rule: list_all2_induct) (auto intro: list_all2_appendI)

lemma mountain_dd_geometry_parts:
  "mountain_dd_geometry k F = Inr (crs, S) \<Longrightarrow>
   crs = ''EPSG:4326'' \<and> list_all2 (list_all2 (attached k)) F S"
proof (induction F arbitrary: S)
  case Nil
  then show ?case
    by (simp add: mountain_dd_geometry_def points_from_xy_def dd_setitem_def)
next
  case (Cons p F)
  from Cons.prems obtain g gs where
    g: "pd_points_from_xy k p ''longitude'' ''latitude'' = Inr g" and
    gs: "traverse (\<lambda>p. pd_points_from_xy k p ''longitude'' ''latitude'') F = Inr gs" and
    S: "S = setitem p ''geometry'' g # dd_setitem F ''geometry'' gs" and crs: "crs = ''EPSG:4326''"
    by (auto simp: mountain_dd_geometry_def points_from_xy_def dd_setitem_def split: sum.splits)
  from gs have "mountain_dd_geometry k F = Inr (crs, dd_setitem F ''geometry'' gs)"
    by (simp add: mountain_dd_geometry_def points_from_xy_def crs)
  then have "list_all2 (list_all2 (attached k)) F (dd_setitem F ''geometry'' gs)"
    using Cons.IH by blast
  moreover have "list_all2 (attached k) p (setitem p ''geometry'' g)"
    using g by (intro setitem_points pd_points_from_xy_Inr)
  ultimately show ?case using S crs by simp
qed

lemma mountain_dd_geometry_rows:
  "mountain_dd_geometry k F = Inr (crs, S) \<Longrightarrow>
   crs = ''EPSG:4326'' \<and> list_all2 (attached k) (compute F) (compute S)"
  using mountain_dd_geometry_parts [of k F crs S] by (simp add: compute_def list_all2_concat)

lemma pd_points_from_xy_total:
  assumes "\<And>r. r \<in> set df \<Longrightarrow> float_columns r"
  shows "pd_points_from_xy k df ''longitude'' ''latitude'' =
         Inr (map (\<lambda>r. GeomV (Point (float_at r ''longitude'') (float_at r ''latitude''))) df)"
  using assms
proof (induction df)
  case Nil
  then show ?case by (simp add: pd_points_from_xy_def getitem_col_def)
next
  case (Cons r df)
  have "float_columns r" using Cons.prems by simp
  moreover have "pd_points_from_xy k df ''longitude'' ''latitude'' =
         Inr (map (\<lambda>r. GeomV (Point (float_at r ''longitude'') (float_at r ''latitude''))) df)"
    using Cons by simp
  ultimately show ?case
    by (auto simp: pd_points_from_xy_def getitem_col_def getitem_cell_def float_columns_def
        float_at_def split: sum.splits option.splits)
qed

lemma setitem_with_point:
  "setitem df ''geometry'' (map (\<lambda>r. GeomV (Point (float_at r ''longitude'') (float_at r ''latitude''))) df)
   = map with_point df"
  by (induction df) (auto simp: setitem_def with_point_def)

lemma mountain_dd_geometry_total:
  assumes "\<And>r. r \<in> set (compute F) \<Longrightarrow> float_columns r"
  shows "mountain_dd_geometry k F = Inr (''EPSG:4326'', map (map with_point) F)"
proof -
  have "\<And>p. p \<in> set F \<Longrightarrow> pd_points_from_xy k p ''longitude'' ''latitude'' =
         Inr (map (\<lambda>r. GeomV (Point (float_at r ''longitude'') (float_at r ''latitude''))) p)"
    using assms by (intro pd_points_from_xy_total) (auto simp: compute_def)
  then have "traverse (\<lambda>p. pd_points_from_xy k p ''longitude'' ''latitude'') F =
     Inr (map (\<lambda>p. map (\<lambda>r. GeomV (Point (float_at r ''longitude'') (float_at r ''latitude''))) p) F)"
    by (intro traverse_total) auto
  moreover have "dd_setitem F ''geometry''
      (map (\<lambda>p. map (\<lambda>r. GeomV (Point (float_at r ''longitude'') (float_at r ''latitude''))) p) F)
     = map (map with_point) F"
    by (induction F) (auto simp: dd_setitem_def setitem_with_point)
  ultimately show ?thesis
    by (simp add: mountain_dd_geometry_def points_from_xy_def)
qed

subsection \<open>The notebook as a function of the lines of its files\<close>

lemma traverse_map_sum:
  "(\<And>x. x \<in> set xs \<Longrightarrow> map_sum id h (f x) = g x) \<Longrightarrow>
   map_sum id (map h) (traverse f xs) = traverse g xs"
proof (induction xs)
  case Nil
  then show ?case by simp
next
  case (Cons x xs)
  have "map_sum id h (f x) = g x" by (rule Cons.prems) simp
  then have gx: "g x = map_sum id h (f x)" by simp
  have "map_sum id (map h) (traverse f xs) = traverse g xs"
    by (rule Cons.IH, rule Cons.prems) simp
  then have gxs: "traverse g xs = map_sum id (map h) (traverse f xs)" by simp
  show ?case
    by (cases "f x"; cases "traverse f xs") (simp_all add: gx gxs)
qed


lemma concat_concat_map: "concat (concat xsss) = concat (map concat xsss)"
  by (induction xsss) auto


lemma map_sum_Inl_D: "map_sum id h x = Inl e \<Longrightarrow> x = Inl e"
  by (cases x) auto

lemma opened_narrow:
  assumes "\<And>p blocks. fs p = Some blocks \<Longrightarrow> narrow_file blocks"
    and "traverse (\<lambda>country. case fs (path_join data_folder (country @ ''.txt'')) of
                      None \<Rightarrow> Inl FileNotFoundError
                    | Some blocks \<Rightarrow> read_pandas k blocks) cs = Inr opened"
    and "blocks \<in> set opened"
  shows "narrow_file blocks"
proof -
  from assms(2,3) obtain country where
    "(case fs (path_join data_folder (country @ ''.txt'')) of
        None \<Rightarrow> Inl FileNotFoundError | Some blocks \<Rightarrow> read_pandas k blocks) = Inr blocks"
    by (blast dest: traverse_Inr_set)
  then obtain b where "fs (path_join data_folder (country @ ''.txt'')) = Some b"
    "read_pandas k b = Inr blocks"
    by (auto split: option.splits)
  then show ?thesis
    using assms(1) by (auto dest: read_pandas_Inr)
qed

lemma dd_list_lines:
  assumes "\<And>p blocks. fs p = Some blocks \<Longrightarrow> narrow_file blocks"
  shows "map_sum id (map compute) (dd_list k fs) =
     (case traverse
             (\<lambda>country. case fs (path_join data_folder (country @ ''.txt'')) of
                 None \<Rightarrow> Inl FileNotFoundError
               | Some blocks \<Rightarrow>
                   (case traverse (read_row k)
                           (take sample_rows
                              (filter (\<lambda>fs. \<not> blank_line fs) (sample_lines 0 (concat blocks)))) of
                      Inl e \<Rightarrow> Inl e
                    | Inr h \<Rightarrow> if concat blocks = [] then Inl ValueError else Inr (concat blocks)))
             countries of
        Inl e \<Rightarrow> Inl e
      | Inr files \<Rightarrow>
          traverse (\<lambda>lines. traverse (read_row k) (filter (\<lambda>fs. \<not> blank_line fs) lines)) files)"
proof -
  let ?open = "\<lambda>country. case fs (path_join data_folder (country @ ''.txt'')) of
                 None \<Rightarrow> Inl FileNotFoundError
               | Some blocks \<Rightarrow> read_pandas k blocks"
  let ?lines = "\<lambda>country. case fs (path_join data_folder (country @ ''.txt'')) of
                 None \<Rightarrow> Inl FileNotFoundError
               | Some blocks \<Rightarrow>
                   (case traverse (read_row k)
                           (take sample_rows
                              (filter (\<lambda>fs. \<not> blank_line fs) (sample_lines 0 (concat blocks)))) of
                      Inl e \<Rightarrow> Inl e
                    | Inr h \<Rightarrow> if concat blocks = [] then Inl ValueError else Inr (concat blocks))"
  let ?rows = "\<lambda>lines. traverse (read_row k) (filter (\<lambda>fs. \<not> blank_line fs) lines)"
  have "map_sum id concat (?open country) = ?lines country" for country
    by (cases "fs (path_join data_folder (country @ ''.txt''))")
      (auto simp: read_pandas_narrow assms split: sum.splits simp del: concat_eq_Nil_conv)
  then have first: "map_sum id (map concat) (traverse ?open countries) = traverse ?lines countries"
    by (intro traverse_map_sum) simp
  show ?thesis
  proof (cases "traverse ?open countries")
    case (Inl e)
    with first have "traverse ?lines countries = Inl e" by simp
    with Inl show ?thesis by (simp add: dd_list_def)
  next
    case (Inr opened)
    with first have lines: "traverse ?lines countries = Inr (map concat opened)" by simp
    have "map_sum id compute (read_blocks k blocks) = ?rows (concat blocks)"
      if "blocks \<in> set opened" for blocks
      using opened_narrow [OF assms Inr that] by (rule read_blocks_narrow)
    then have "map_sum id (map compute) (traverse (read_blocks k) opened) =
        traverse (\<lambda>blocks. ?rows (concat blocks)) opened"
      by (intro traverse_map_sum) simp
    then show ?thesis
      by (simp add: dd_list_def Inr lines traverse_map)
  qed
qed

lemma dd_list_rows:
  assumes "\<And>p blocks. fs p = Some blocks \<Longrightarrow> narrow_file blocks"
    and "dd_list k fs = Inr l" and "r \<in> set (compute (dd_concat l))"
  shows "\<exists>line. read_row k line = Inr r"
proof -
  from assms(3) obtain D where D: "D \<in> set l" and r: "r \<in> set (compute D)"
    by (auto simp: compute_def dd_concat_def)
  from assms(2) obtain opened where
    opened: "traverse (\<lambda>country. case fs (path_join data_folder (country @ ''.txt'')) of
                      None \<Rightarrow> Inl FileNotFoundError
                    | Some blocks \<Rightarrow> read_pandas k blocks) countries = Inr opened"
    and l: "traverse (read_blocks k) opened = Inr l"
    by (auto simp: dd_list_def split: sum.splits)
  from l D obtain blocks where b: "blocks \<in> set opened" "read_blocks k blocks = Inr D"
    by (blast dest: traverse_Inr_set)
  have "list_all regular_block blocks"
    using opened_narrow [OF assms(1) opened b(1)] by (rule narrow_file_regular)
  from read_blocks_rows [OF this b(2) r] show ?thesis by blast
qed

lemma read_row_float_columns: "read_row k line = Inr r \<Longrightarrow> float_columns r"
  using read_row_latitude [of k line r] read_row_longitude [of k line r]
  by (auto simp: float_columns_def)

lemma mountain_df_compute: "mountain_df (crs, F) = mountain_df (crs, [compute F])"
  by (simp add: mountain_df_def compute_def)

lemma run_cells_eq:
  assumes "\<And>p blocks. fs p = Some blocks \<Longrightarrow> narrow_file blocks"
  shows "run_cells k fs =
     (case dd_list k fs of
        Inl e \<Rightarrow> Inl e
      | Inr l \<Rightarrow>
          Inr (mountain_df (''EPSG:4326'',
                 [map with_point
                    (filter (\<lambda>r. map_of r ''feature class'' = Some (StrV ''T''))
                       (concat (map compute l)))])))"
proof (cases "dd_list k fs")
  case (Inl e)
  then show ?thesis by (simp add: run_cells_def)
next
  case (Inr l)
  have loaded: "\<And>r. r \<in> set (compute (dd_concat l)) \<Longrightarrow> \<exists>line. read_row k line = Inr r"
    using assms Inr by (rule dd_list_rows)
  then obtain F where F: "row_filter (dd_concat l) ''T'' = Inr F"
    using row_filter_total [of "dd_concat l" "''T''"] by (blast dest: read_row_feature_class)
  have cF: "compute F =
      filter (\<lambda>r. map_of r ''feature class'' = Some (StrV ''T'')) (compute (dd_concat l))"
    using F by (rule row_filter_compute)
  then have "\<And>r. r \<in> set (compute F) \<Longrightarrow> float_columns r"
    using loaded by (auto dest: read_row_float_columns)
  then have "mountain_dd_geometry k F = Inr (''EPSG:4326'', map (map with_point) F)"
    by (rule mountain_dd_geometry_total)
  moreover have "compute (map (map with_point) F) = map with_point (compute F)"
    by (simp add: compute_def map_concat)
  moreover have "compute (dd_concat l) = concat (map compute l)"
    by (simp add: compute_def [abs_def] dd_concat_def concat_concat_map)
  ultimately show ?thesis
    using Inr F cF
    by (simp add: run_cells_def merged_dd_def mountain_dd_def
        mountain_df_compute [of _ "map (map with_point) F"])
qed

lemma run_cells_frames:
  assumes "\<And>p blocks. fs p = Some blocks \<Longrightarrow> narrow_file blocks"
  shows "run_cells k fs =
     (case map_sum id (map compute) (dd_list k fs) of
        Inl e \<Rightarrow> Inl e
      | Inr frames \<Rightarrow>
          Inr (mountain_df (''EPSG:4326'',
                 [map with_point
                    (filter (\<lambda>r. map_of r ''feature class'' = Some (StrV ''T''))
                       (concat frames))])))"
  by (cases "dd_list k fs") (simp_all add: run_cells_eq [OF assms])

lemma partition_independent:
  assumes narrow: "\<And>p blocks. fs p = Some blocks \<Longrightarrow> narrow_file blocks"
    and same: "\<And>p. map_option concat (fs p) = map_option concat (fs' p)"
  shows "run_cells k fs = run_cells k fs'"
proof -
  let ?read = "\<lambda>lines. case traverse (read_row k)
          (take sample_rows (filter (\<lambda>fs. \<not> blank_line fs) (sample_lines 0 lines))) of
        Inl e \<Rightarrow> Inl e
      | Inr h \<Rightarrow> if lines = [] then Inl ValueError else Inr lines"
  have narrow': "narrow_file blocks'" if "fs' p = Some blocks'" for p blocks'
  proof -
    from same [of p] that obtain blocks where "fs p = Some blocks" "concat blocks = concat blocks'"
      by (cases "fs p") auto
    with narrow [of p blocks] show ?thesis
      by (simp add: narrow_file_concat)
  qed
  have "(case fs p of None \<Rightarrow> Inl FileNotFoundError | Some blocks \<Rightarrow> ?read (concat blocks)) =
        (case fs' p of None \<Rightarrow> Inl FileNotFoundError | Some blocks \<Rightarrow> ?read (concat blocks))" for p
    using same [of p]
    by (cases "fs p"; cases "fs' p") (auto split: sum.splits simp del: concat_eq_Nil_conv)
  then have "map_sum id (map compute) (dd_list k fs) = map_sum id (map compute) (dd_list k fs')"
    by (simp add: dd_list_lines [OF narrow] dd_list_lines [OF narrow'])
  then show ?thesis
    by (simp add: run_cells_frames [OF narrow] run_cells_frames [OF narrow'])
qed

subsection \<open>The concrete inputs, evaluated\<close>

lemma convert_parsers: "convert (k\<lparr>read_irregular := f\<rparr>) t x = convert k t x"
  by (cases t; cases x) simp_all

lemma read_row_parsers: "read_row (k\<lparr>read_irregular := f\<rparr>) fs = read_row k fs"
  by (simp add: read_row_def convert_parsers)

lemmas sample_defs = read_row_def column_names_def peak_line_def peak_row_def plain_parsers_def
      default_na_def dtype_of_def dtypes_def field_def digit_of_def enumerate_eq_zip upt_rec
      town_line_def town_row_def far_line_def far_row_def short_line_def short_row_def
      lake_line_def lake_row_def

lemma read_peak_parsers: "read_row plain_parsers peak_line = Inr peak_row"
  by (simp add: sample_defs)

lemma read_peak: "read_row plain_coercion peak_line = Inr peak_row"
  by (simp add: plain_coercion_def read_row_parsers read_peak_parsers)

lemma read_town: "read_row plain_coercion town_line = Inr town_row"
  unfolding plain_coercion_def read_row_parsers by (simp add: sample_defs)

lemma read_far: "read_row plain_coercion far_line = Inr far_row"
  unfolding plain_coercion_def read_row_parsers by (simp add: sample_defs)

lemma read_lake: "read_row plain_coercion lake_line = Inr lake_row"
  unfolding plain_coercion_def read_row_parsers by (simp add: sample_defs)


lemma read_wide: "read_row plain_coercion wide_line = Inl ParserError"
  by (simp add: read_row_def wide_line_def peak_line_def column_names_def)

lemma nonblank: "\<not> blank_line peak_line" "\<not> blank_line town_line" "\<not> blank_line far_line"
  "\<not> blank_line short_line" "\<not> blank_line lake_line" "\<not> blank_line wide_line"
  by (simp_all add: peak_line_def town_line_def far_line_def short_line_def lake_line_def
      wide_line_def)

lemma narrow_lines: "narrow_line peak_line" "narrow_line town_line" "narrow_line far_line"
  "narrow_line short_line" "narrow_line lake_line"
  by (simp_all add: narrow_line_def plain_field_def byte_def column_names_def peak_line_def
      town_line_def far_line_def short_line_def lake_line_def)

lemma regular_blocks: "regular_block [peak_line, town_line]" "regular_block [peak_line]"
  "regular_block [town_line]" "regular_block [far_line]" "regular_block [lake_line]"
  "regular_block [short_line]"
  by (simp_all add: narrow_regular narrow_lines)

lemma fc_rows: "map_of peak_row ''feature class'' = Some (StrV ''T'')"
  "map_of town_row ''feature class'' = Some (StrV ''P'')"
  "map_of far_row ''feature class'' = Some (StrV ''T'')"
  "map_of lake_row ''feature class'' = Some (StrV ''H'')"
  by (simp_all add: peak_row_def town_row_def far_row_def lake_row_def)

lemma coords: "map_of peak_row ''longitude'' = Some (FloatV (Finite (- 105)))"
  "map_of peak_row ''latitude'' = Some (FloatV (Finite 40))"
  "map_of far_row ''longitude'' = Some (FloatV (Finite 200))"
  "map_of far_row ''latitude'' = Some (FloatV (Finite 95))"
  by (simp_all add: peak_row_def town_row_def far_row_def)

lemma open_us: "read_pandas plain_coercion [[peak_line, town_line]] = Inr [[peak_line, town_line]]"
  by (rule read_pandas_loads [where rows = "[peak_row, town_row]"])
    (simp_all add: narrow_file_def narrow_lines nonblank read_peak read_town)

lemma open_far: "read_pandas plain_coercion [[far_line]] = Inr [[far_line]]"
  by (rule read_pandas_loads [where rows = "[far_row]"])
    (simp_all add: narrow_file_def narrow_lines nonblank read_far)

lemma open_lake: "read_pandas plain_coercion [[lake_line]] = Inr [[lake_line]]"
  by (rule read_pandas_loads [where rows = "[lake_row]"])
    (simp_all add: narrow_file_def narrow_lines nonblank read_lake)




lemma load_far: "dd_read_csv plain_coercion [[far_line]] = Inr [[far_row]]"
  by (simp add: dd_read_csv_def open_far read_blocks_def pd_read_csv_regular regular_blocks
      nonblank read_far)



lemma geom_far: "mountain_dd_geometry plain_coercion [[far_row]] =
  Inr (''EPSG:4326'', [[far_row @ [(''geometry'', GeomV (Point (Finite 200) (Finite 95)))]]])"
  by (simp add: mountain_dd_geometry_def points_from_xy_def pd_points_from_xy_def getitem_col_def
      getitem_cell_def coords dd_setitem_def setitem_def) (simp add: far_row_def)

lemma narrow_sample_files: "sample_files p = Some blocks \<Longrightarrow> narrow_file blocks"
  by (auto simp: sample_files_def narrow_file_def narrow_lines split: if_splits)

lemma run_sample:
  "run_cells plain_coercion sample_files =
     Inr \<lparr>gdf_crs = Some ''EPSG:4326'', gdf_rows = [with_point peak_row, with_point far_row]\<rparr>"
proof -
  have "dd_list plain_coercion sample_files =
      Inr [[[peak_row, town_row]], [[far_row]], [[lake_row]]]"
    by (simp add: dd_list_def countries_def data_folder_def path_join_def sample_files_def
        open_us open_far open_lake read_blocks_def pd_read_csv_regular regular_blocks nonblank
        read_peak read_town read_far read_lake)
  then show ?thesis
    using run_cells_eq [of sample_files plain_coercion, OF narrow_sample_files]
    by (simp add: compute_def fc_rows mountain_df_def)
qed

section \<open>The properties of the specification\<close>

text \<open>
  Claim C1. For every dataset \<open>D\<close> whose rows have the column \<^verbatim>\<open>feature class\<close> and every
  value \<open>v\<close>, the Row Filter \<^verbatim>\<open>D[D['feature class'] == v]\<close> returns exactly the rows of
  \<open>D\<close> whose feature class is \<open>v\<close>, each as often as it occurs in \<open>D\<close>: every row of the
  result is a row of \<open>D\<close> with feature class \<open>v\<close>, no row of \<open>D\<close> with another feature class
  is in the result, and a selected row is the row of \<open>D\<close> itself, all its cells unchanged.
\<close>
theorem row_filter_exact:
  assumes "\<forall>r\<in>set (compute D). map_of r ''feature class'' \<noteq> None"
  shows "\<exists>F. row_filter D v = Inr F \<and>
           mset (compute F) =
             filter_mset (\<lambda>r. map_of r ''feature class'' = Some (StrV v)) (mset (compute D)) \<and>
           (\<forall>r\<in>set (compute F). r \<in> set (compute D) \<and> map_of r ''feature class'' = Some (StrV v)) \<and>
           (\<forall>r\<in>set (compute D). map_of r ''feature class'' \<noteq> Some (StrV v) \<longrightarrow> r \<notin> set (compute F))"
proof -
  from assms obtain F where F: "row_filter D v = Inr F"
    using row_filter_total [of D v] by blast
  have "compute F = filter (\<lambda>r. map_of r ''feature class'' = Some (StrV v)) (compute D)"
    using F by (rule row_filter_compute)
  then show ?thesis using F by auto
qed

text \<open>Two partitions with a peak, a town and a second peak: the two peaks are selected.\<close>
theorem row_filter_exact_witness:
  "list_all (\<lambda>r. map_of r ''feature class'' \<noteq> None) (compute [[peak_row, town_row], [far_row]]) \<and>
   row_filter [[peak_row, town_row], [far_row]] ''T'' = Inr [[peak_row], [far_row]] \<and>
   (\<exists>F. row_filter [[peak_row, town_row], [far_row]] ''T'' = Inr F \<and>
      mset (compute F) = {#peak_row, far_row#})"
proof -
  have h: "\<forall>r\<in>set (compute [[peak_row, town_row], [far_row]]). map_of r ''feature class'' \<noteq> None"
    by (simp add: compute_def fc_rows)
  have e: "row_filter [[peak_row, town_row], [far_row]] ''T'' = Inr [[peak_row], [far_row]]"
    by (simp add: row_filter_def dd_getitem_col_def getitem_col_def getitem_cell_def fc_rows
        dd_series_eq_def series_eq_def dd_getitem_mask_def getitem_mask_def)
  from row_filter_exact [OF h, of "''T''"] h e show ?thesis
    by (simp add: compute_def fc_rows list_all_iff)
qed

text \<open>
  Claim C9. The Row Filter is stable: the rows of the filtered frame are the rows of
  feature class \<open>v\<close> in the order in which they stand in the concatenation of the loaded
  frames, a subsequence of it.
\<close>
theorem row_filter_stable:
  assumes "\<forall>r\<in>set (compute (dd_concat Ds)). map_of r ''feature class'' \<noteq> None"
  shows "\<exists>F. row_filter (dd_concat Ds) v = Inr F \<and>
           compute F =
             filter (\<lambda>r. map_of r ''feature class'' = Some (StrV v)) (concat (map compute Ds)) \<and>
           subseq (compute F) (concat (map compute Ds))"
proof -
  from assms obtain F where F: "row_filter (dd_concat Ds) v = Inr F"
    using row_filter_total [of "dd_concat Ds" v] by blast
  have "compute F = filter (\<lambda>r. map_of r ''feature class'' = Some (StrV v)) (compute (dd_concat Ds))"
    using F by (rule row_filter_compute)
  moreover have "compute (dd_concat Ds) = concat (map compute Ds)"
    by (simp add: compute_def [abs_def] dd_concat_def concat_concat_map)
  ultimately show ?thesis using F by auto
qed

theorem row_filter_stable_witness:
  "list_all (\<lambda>r. map_of r ''feature class'' \<noteq> None)
     (compute (dd_concat [[[far_row, town_row]], [[peak_row]]])) \<and>
   (\<exists>F. row_filter (dd_concat [[[far_row, town_row]], [[peak_row]]]) ''T'' = Inr F \<and>
      compute F = [far_row, peak_row])"
proof -
  have h: "\<forall>r\<in>set (compute (dd_concat [[[far_row, town_row]], [[peak_row]]])).
      map_of r ''feature class'' \<noteq> None"
    by (simp add: compute_def dd_concat_def fc_rows)
  from row_filter_stable [OF h, of "''T''"] h show ?thesis
    by (auto simp: compute_def dd_concat_def fc_rows list_all_iff)
qed

text \<open>
  Claim C2. On a frame whose coordinate cells are floats, as those of the filtered frame
  are, the Geometry Builder returns, and every row whose longitude and latitude are
  numbers has got the geometry \<open>Point longitude latitude\<close>: the coordinates \<open>x\<close> and \<open>y\<close>
  read off that point are equal, as floats, to the longitude and the latitude of the row.
\<close>
theorem geometry_round_trip:
  assumes "\<forall>r\<in>set (compute F). float_columns r"
  shows "\<exists>S. mountain_dd_geometry k F = Inr (''EPSG:4326'', S) \<and>
           list_all2
             (\<lambda>r s. \<forall>x y. map_of r ''longitude'' = Some (FloatV x) \<and>
                       map_of r ''latitude'' = Some (FloatV y) \<and> is_number x \<and> is_number y \<longrightarrow>
                       (\<exists>g. map_of s ''geometry'' = Some (GeomV g) \<and> g = Point x y \<and>
                          float_eq (point_x g) x \<and> float_eq (point_y g) y))
             (compute F) (compute S)"
proof -
  have eq: "float_eq x x" if "is_number x" for x
    using that by (cases x) auto
  have S: "mountain_dd_geometry k F = Inr (''EPSG:4326'', map (map with_point) F)"
    using assms by (intro mountain_dd_geometry_total) simp
  then have "list_all2 (attached k) (compute F) (compute (map (map with_point) F))"
    by (blast dest: mountain_dd_geometry_rows)
  then have "list_all2
             (\<lambda>r s. \<forall>x y. map_of r ''longitude'' = Some (FloatV x) \<and>
                       map_of r ''latitude'' = Some (FloatV y) \<and> is_number x \<and> is_number y \<longrightarrow>
                       (\<exists>g. map_of s ''geometry'' = Some (GeomV g) \<and> g = Point x y \<and>
                          float_eq (point_x g) x \<and> float_eq (point_y g) y))
             (compute F) (compute (map (map with_point) F))"
    by (rule list_all2_mono) (auto simp: attached_def update_conv' eq)
  with S show ?thesis by blast
qed

theorem geometry_round_trip_witness:
  "list_all float_columns (compute [[peak_row]]) \<and>
   mountain_dd_geometry plain_coercion [[peak_row]] =
     Inr (''EPSG:4326'', [[peak_row @ [(''geometry'', GeomV (Point (Finite (- 105)) (Finite 40)))]]]) \<and>
   float_eq (point_x (Point (Finite (- 105)) (Finite 40))) (Finite (- 105)) \<and>
   float_eq (point_y (Point (Finite (- 105)) (Finite 40))) (Finite 40) \<and>
   (\<exists>S. mountain_dd_geometry plain_coercion [[peak_row]] = Inr (''EPSG:4326'', S) \<and>
      list_all2
        (\<lambda>r s. \<forall>x y. map_of r ''longitude'' = Some (FloatV x) \<and>
                  map_of r ''latitude'' = Some (FloatV y) \<and> is_number x \<and> is_number y \<longrightarrow>
                  (\<exists>g. map_of s ''geometry'' = Some (GeomV g) \<and> g = Point x y \<and>
                     float_eq (point_x g) x \<and> float_eq (point_y g) y))
        (compute [[peak_row]]) (compute S))"
proof -
  have h: "\<forall>r\<in>set (compute [[peak_row]]). float_columns r"
    by (simp add: compute_def float_columns_def coords)
  have e: "mountain_dd_geometry plain_coercion [[peak_row]] =
     Inr (''EPSG:4326'', [[peak_row @ [(''geometry'', GeomV (Point (Finite (- 105)) (Finite 40)))]]])"
    by (simp add: mountain_dd_geometry_def points_from_xy_def pd_points_from_xy_def
        getitem_col_def getitem_cell_def coords dd_setitem_def setitem_def)
      (simp add: peak_row_def)
  from geometry_round_trip [OF h, of plain_coercion] h e show ?thesis
    by (simp add: list_all_iff)
qed

text \<open>
  Claim C3 says that the Geometry Builder fails for a record whose coordinates are outside
  the valid ranges. The line \<open>far_line\<close> is loaded with latitude 95 and longitude 200, and
  the Geometry Builder returns its row with the point of these coordinates.
\<close>
theorem geometry_out_of_range_counterexample:
  "dd_read_csv plain_coercion [[far_line]] = Inr [[far_row]] \<and>
   \<not> spec_valid_coordinates far_row \<and>
   mountain_dd_geometry plain_coercion [[far_row]] =
     Inr (''EPSG:4326'', [[far_row @ [(''geometry'', GeomV (Point (Finite 200) (Finite 95)))]]])"
proof -
  have "dd_read_csv plain_coercion [[far_line]] = Inr [[far_row]]"
    by (rule load_far)
  moreover have "\<not> spec_valid_coordinates far_row"
    by (simp add: spec_valid_coordinates_def coords)
  ultimately show ?thesis using geom_far by simp
qed

text \<open>
  Claim C3, as the notebook has it: for every frame whose longitude and latitude cells
  are floats, whatever their values (NaN for a missing value and values outside the
  ranges included), the Geometry Builder succeeds and sets the geometry of every row to
  the point of its longitude and latitude.
\<close>
theorem geometry_builder_unchecked:
  assumes "\<forall>r\<in>set (compute F). float_columns r"
  shows "\<exists>S. mountain_dd_geometry k F = Inr (''EPSG:4326'', S) \<and>
           compute S = map with_point (compute F)"
proof -
  have "mountain_dd_geometry k F = Inr (''EPSG:4326'', map (map with_point) F)"
    using assms by (intro mountain_dd_geometry_total) simp
  then show ?thesis by (simp add: compute_def map_concat)
qed

theorem geometry_builder_unchecked_witness:
  "list_all float_columns (compute [[far_row]]) \<and>
   \<not> spec_valid_coordinates far_row \<and>
   (\<exists>S. mountain_dd_geometry plain_coercion [[far_row]] = Inr (''EPSG:4326'', S) \<and>
      compute S = [far_row @ [(''geometry'', GeomV (Point (Finite 200) (Finite 95)))]])"
proof -
  have h: "\<forall>r\<in>set (compute [[far_row]]). float_columns r"
    by (simp add: compute_def float_columns_def coords)
  have w: "with_point far_row = far_row @ [(''geometry'', GeomV (Point (Finite 200) (Finite 95)))]"
    by (simp add: with_point_def float_at_def coords) (simp add: far_row_def)
  have n: "\<not> spec_valid_coordinates far_row"
    by (simp add: spec_valid_coordinates_def coords)
  from geometry_builder_unchecked [OF h, of plain_coercion] h n show ?thesis
    by (simp add: compute_def w list_all_iff)
qed












lemma plain_wide: "list_all plain_field wide_line"
  by (simp add: wide_line_def plain_field_def byte_def peak_line_def)

lemma irregular_wide: "\<not> regular_block [wide_line]"
  by (simp add: regular_block_def wide_line_def peak_line_def column_names_def)

lemma shifted_wide:
  "read_shifted plain_parsers None [wide_line] = Inr [peak_row]"
  "read_shifted plain_parsers (Some sample_rows) [wide_line] = Inr [peak_row]"
  by (simp_all add: read_shifted_def take_rows_def sample_rows_def nonblank)
    (simp_all add: wide_line_def peak_line_def column_names_def
      read_peak_parsers [unfolded peak_line_def])















lemma row_filter_eq:
  assumes "\<And>r. r \<in> set (compute D) \<Longrightarrow> map_of r ''feature class'' \<noteq> None"
  shows "row_filter D v = Inr (map (filter (\<lambda>r. map_of r ''feature class'' = Some (StrV v))) D)"
proof -
  from assms obtain F where F: "row_filter D v = Inr F"
    using row_filter_total [of D v] by blast
  with row_filter_parts [OF F] show ?thesis by simp
qed

lemma ten_towns: "replicate 10 town_line = town_line # replicate 9 town_line"
  by (simp add: numeral_eq_Suc)

lemma regular_ten:
  "regular_block (replicate 10 town_line @ [wide_line])" "regular_block (replicate 10 town_line)"
proof -
  have "list_all (list_all plain_field) (replicate 10 town_line @ [wide_line])"
    using narrow_lines(2) plain_wide by (simp add: list_all_iff narrow_line_def)
  then show "regular_block (replicate 10 town_line @ [wide_line])"
    "regular_block (replicate 10 town_line)"
    using narrow_lines(2) by (simp_all add: regular_block_def narrow_line_def nonblank ten_towns)
qed

lemma head_ten:
  "dd_head plain_coercion (replicate 10 town_line @ [wide_line]) = Inr (replicate 10 town_row)"
proof -
  have "sample_lines 0 (replicate 10 town_line @ [wide_line]) = replicate 10 town_line @ [wide_line]"
    by (rule sample_lines_small)
      (simp add: sum_list_replicate line_bytes_def town_line_def wide_line_def peak_line_def
        sample_bytes_def)
  then show ?thesis
    by (simp add: dd_head_def pd_read_csv_def regular_ten take_rows_def sample_rows_def nonblank
        traverse_replicate read_town)
qed

lemma open_ten:
  "read_pandas plain_coercion [replicate 10 town_line @ [wide_line]] =
     Inr [replicate 10 town_line @ [wide_line]]"
  "read_pandas plain_coercion [replicate 10 town_line, [wide_line]] =
     Inr [replicate 10 town_line, [wide_line]]"
  by (simp_all add: read_pandas_def head_ten)

lemma blocks_ten:
  "read_blocks plain_coercion [replicate 10 town_line @ [wide_line]] = Inl ParserError"
  "read_blocks plain_coercion [replicate 10 town_line, [wide_line]] =
     Inr [replicate 10 town_row, [peak_row]]"
proof -
  have ten: "traverse (read_row plain_coercion) (replicate 10 town_line) = Inr (replicate 10 town_row)"
    by (simp add: traverse_replicate read_town)
  show "read_blocks plain_coercion [replicate 10 town_line @ [wide_line]] = Inl ParserError"
    by (simp add: read_blocks_def pd_read_csv_regular regular_ten nonblank traverse_append ten
        read_wide)
  have "pd_read_csv plain_coercion None [wide_line] = Inr [peak_row]"
    by (simp add: pd_read_csv_def irregular_wide plain_coercion_def shifted_wide)
  then show "read_blocks plain_coercion [replicate 10 town_line, [wide_line]] =
     Inr [replicate 10 town_row, [peak_row]]"
    by (simp add: read_blocks_def pd_read_csv_regular regular_ten nonblank ten)
qed

lemma run_wide:
  "notebook plain_coercion wide_files Map.empty = Inl ParserError"
  by (simp add: notebook_def run_cells_def dd_list_def countries_def data_folder_def path_join_def
      wide_files_def open_ten open_far open_lake blocks_ten)

lemma run_wide_split:
  "run_cells plain_coercion wide_files_split =
     Inr \<lparr>gdf_crs = Some ''EPSG:4326'', gdf_rows = [with_point peak_row, with_point far_row]\<rparr>"
proof -
  have far: "read_blocks plain_coercion [[far_line]] = Inr [[far_row]]"
    by (simp add: read_blocks_def pd_read_csv_regular regular_blocks nonblank read_far)
  have lake: "read_blocks plain_coercion [[lake_line]] = Inr [[lake_row]]"
    by (simp add: read_blocks_def pd_read_csv_regular regular_blocks nonblank read_lake)
  have l: "dd_list plain_coercion wide_files_split =
      Inr [[replicate 10 town_row, [peak_row]], [[far_row]], [[lake_row]]]"
    by (simp add: dd_list_def countries_def data_folder_def path_join_def wide_files_split_def
        open_ten open_far open_lake blocks_ten far lake)
  have m: "mountain_dd (merged_dd [[replicate 10 town_row, [peak_row]], [[far_row]], [[lake_row]]]) =
      Inr [[], [peak_row], [far_row], []]"
    unfolding mountain_dd_def merged_dd_def
    by (subst row_filter_eq) (auto simp: compute_def dd_concat_def fc_rows)
  have "\<And>r. r \<in> set (compute [[], [peak_row], [far_row], []]) \<Longrightarrow> float_columns r"
    by (auto simp: compute_def float_columns_def coords)
  then have g: "mountain_dd_geometry plain_coercion [[], [peak_row], [far_row], []] =
      Inr (''EPSG:4326'', map (map with_point) [[], [peak_row], [far_row], []])"
    by (rule mountain_dd_geometry_total)
  show ?thesis
    by (simp add: run_cells_def l m g mountain_df_def compute_def)
qed

text \<open>
  Claim C10 says that the written layer does not depend on how the frame is partitioned.
  The two inputs \<open>wide_files\<close> and \<open>wide_files_split\<close> hold the same lines in every file;
  the first file has the twenty-field line \<open>wide_line\<close> after ten lines of nineteen fields,
  so that it is not among the rows that \<^verbatim>\<open>dd.read_csv\<close> reads at the call. With the file
  in one block the notebook raises \<^verbatim>\<open>ParserError\<close>; with the file cut before that line it
  runs to the end.
\<close>
theorem partition_counterexample:
  "map_option concat \<circ> wide_files = map_option concat \<circ> wide_files_split \<and>
   notebook plain_coercion wide_files Map.empty = Inl ParserError \<and>
   \<not> isl (notebook plain_coercion wide_files_split Map.empty)"
proof -
  have "map_option concat (wide_files p) = map_option concat (wide_files_split p)" for p
    by (simp add: wide_files_def wide_files_split_def)
  then have "map_option concat \<circ> wide_files = map_option concat \<circ> wide_files_split"
    by (simp add: fun_eq_iff)
  moreover have "\<not> isl (notebook plain_coercion wide_files_split Map.empty)"
    by (simp add: notebook_def run_wide_split)
  ultimately show ?thesis using run_wide by simp
qed

text \<open>
  Claim C10, for files of narrow lines (at most nineteen plain fields each). Two runs of
  the notebook over files with the same lines give the same result, the same containers
  or the same exception, however the files are cut into partitions. (That two runs over
  the same partitions agree holds of any function.)
\<close>
theorem notebook_partition_independent:
  assumes "\<forall>p blocks. fs p = Some blocks \<longrightarrow> narrow_file blocks"
    and "\<forall>p. map_option concat (fs p) = map_option concat (fs' p)"
  shows "notebook k fs out = notebook k fs' out"
proof -
  have "run_cells k fs = run_cells k fs'"
    using assms by (intro partition_independent) auto
  then show ?thesis by (simp add: notebook_def)
qed

theorem notebook_partition_independent_witness:
  "narrow_file [[peak_line, town_line]] \<and> narrow_file [[far_line]] \<and>
   narrow_file [[lake_line]] \<and>
   (\<forall>p. map_option concat (sample_files p) = map_option concat (sample_files_split p)) \<and>
   sample_files \<noteq> sample_files_split \<and>
   run_cells plain_coercion sample_files =
     Inr \<lparr>gdf_crs = Some ''EPSG:4326'', gdf_rows = [with_point peak_row, with_point far_row]\<rparr> \<and>
   notebook plain_coercion sample_files Map.empty =
     notebook plain_coercion sample_files_split Map.empty"
proof -
  have n: "\<forall>p blocks. sample_files p = Some blocks \<longrightarrow> narrow_file blocks"
    using narrow_sample_files by blast
  have n': "narrow_file [[peak_line, town_line]]" "narrow_file [[far_line]]"
    "narrow_file [[lake_line]]"
    by (simp_all add: narrow_file_def narrow_lines)
  have s: "\<forall>p. map_option concat (sample_files p) = map_option concat (sample_files_split p)"
    by (simp add: sample_files_def sample_files_split_def)
  have "sample_files ''data/US.txt'' \<noteq> sample_files_split ''data/US.txt''"
    by (simp add: sample_files_def sample_files_split_def)
  then have d: "sample_files \<noteq> sample_files_split" by metis
  from notebook_partition_independent [OF n s, of plain_coercion Map.empty] n' s d run_sample
  show ?thesis by blast
qed

end
